theory Spec2Isabelle
  imports Main "HOL-Library.Sublist"
begin

section \<open>The k6 load-test scripts of K6-TMS\<close>

text \<open>
  The authored code of the repository is three short k6 scripts:
  \<^verbatim>\<open>mastergroupingroute.js\<close> (login, cookie capture, protected GET),
  \<^verbatim>\<open>test.js\<close> (one GET), and \<^verbatim>\<open>handleSummary.js\<close> (the summary
  post-processor). JavaScript strings are modelled as \<open>string\<close>; the patterns
  searched for are ASCII, so a search over bytes finds what a search over UTF-16
  code units finds.
\<close>

subsection \<open>Data: the HTTP response object\<close>

text \<open>
  The fields of a k6 response that the scripts read: \<open>status\<close> (a number),
  \<open>body\<close> (a string, or \<open>null\<close>), and \<open>cookies\<close>, an object from a cookie
  name to the array of cookies of that name (\<open>undefined\<close> for an absent name).
\<close>

record cookie =
  cookie_name :: string
  cookie_value :: string

record response =
  status :: int
  body :: "string option"
  cookies :: "string \<rightharpoonup> cookie list"

subsection \<open>Effects: requests, console output and sleeps as a trace\<close>

text \<open>
  A request is recorded with the arguments the script passes to \<open>http.post\<close> and
  \<open>http.get\<close>: the URL, and the form fields or the headers of the parameter object.
\<close>

datatype request =
    POST string "(string \<times> string) list"
  | GET string "(string \<times> string) list"

datatype event =
    Request request
  | ConsoleLog string
  | Sleep nat

text \<open>
  The remote side is any function from its own state and a request to a response and
  its next state: nothing is assumed about what the endpoints answer.
\<close>

type_synonym 'w server = "'w \<Rightarrow> request \<Rightarrow> response \<times> 'w"

record 'w vu =
  world :: 'w
  trace :: "event list"

definition http_post ::
  "'w server \<Rightarrow> string \<Rightarrow> (string \<times> string) list \<Rightarrow> 'w vu \<Rightarrow> response \<times> 'w vu" where
  "http_post srv url payload s =
     (let (r, w') = srv (world s) (POST url payload)
      in (r, s\<lparr>world := w', trace := trace s @ [Request (POST url payload)]\<rparr>))"

definition http_get ::
  "'w server \<Rightarrow> string \<Rightarrow> (string \<times> string) list \<Rightarrow> 'w vu \<Rightarrow> response \<times> 'w vu" where
  "http_get srv url headers s =
     (let (r, w') = srv (world s) (GET url headers)
      in (r, s\<lparr>world := w', trace := trace s @ [Request (GET url headers)]\<rparr>))"

definition console_log :: "string \<Rightarrow> 'w vu \<Rightarrow> 'w vu" where
  "console_log msg s = s\<lparr>trace := trace s @ [ConsoleLog msg]\<rparr>"

definition sleep :: "nat \<Rightarrow> 'w vu \<Rightarrow> 'w vu" where
  "sleep n s = s\<lparr>trace := trace s @ [Sleep n]\<rparr>"

subsection \<open>JavaScript conversions to string\<close>

text \<open>An integer number in a template literal: its decimal digits, \<open>-\<close> first if negative.\<close>

definition digit_char :: "nat \<Rightarrow> char" where
  "digit_char d = ''0123456789'' ! d"

function digits :: "nat \<Rightarrow> string" where
  "digits n = (if n < 10 then [digit_char n] else digits (n div 10) @ [digit_char (n mod 10)])"
  by pat_completeness auto
termination
  by (relation "measure (\<lambda>n. n)") auto

declare digits.simps [simp del]

definition number_to_string :: "int \<Rightarrow> string" where
  "number_to_string i = (if i < 0 then CHR ''-'' # digits (nat (- i)) else digits (nat i))"

text \<open>
  The number a decimal numeral denotes, to say what a rendered status stands for:
  digits only, after an optional \<open>-\<close>; anything else denotes no number.
\<close>

definition digit_value :: "char \<Rightarrow> nat option" where
  "digit_value c =
     map_of [(CHR ''0'', 0), (CHR ''1'', 1), (CHR ''2'', 2), (CHR ''3'', 3), (CHR ''4'', 4),
             (CHR ''5'', 5), (CHR ''6'', 6), (CHR ''7'', 7), (CHR ''8'', 8), (CHR ''9'', 9)] c"

fun read_digits :: "nat \<Rightarrow> string \<Rightarrow> nat option" where
  "read_digits acc [] = Some acc"
| "read_digits acc (c # cs) =
     (case digit_value c of None \<Rightarrow> None | Some d \<Rightarrow> read_digits (10 * acc + d) cs)"

definition read_number :: "string \<Rightarrow> int option" where
  "read_number str =
     (case str of
        [] \<Rightarrow> None
      | c # cs \<Rightarrow>
          if c = CHR ''-'' then (if cs = [] then None else map_option (\<lambda>n. - int n) (read_digits 0 cs))
          else map_option int (read_digits 0 str))"

text \<open>\<open>console.log\<close> of a response body: the string itself, or \<open>null\<close>.\<close>

definition body_to_string :: "string option \<Rightarrow> string" where
  "body_to_string b = (case b of None \<Rightarrow> ''null'' | Some t \<Rightarrow> t)"

subsection \<open>mastergroupingroute.js\<close>

definition login_url :: string where
  "login_url = ''https://tms.ttnt.arkamaya.net/login/''"

definition grouping_route_url :: string where
  "grouping_route_url = ''https://tms.ttnt.arkamaya.net/grouping_route''"

definition credentials :: "(string \<times> string) list" where
  "credentials = [(''username'', ''admin-kasir@ttnt.co.id''), (''password'', ''123123'')]"

definition fallback_cookie :: string where
  "fallback_cookie = ''s67pgo29kq2ue8o2rg90onsf8lsa06ud''"

text \<open>
  Step 2 of the script: \<open>cookies && cookies.length > 0\<close> is true when the name is
  present (an array is truthy, also an empty one) and the array is not empty.
\<close>

definition cookieHeader :: "response \<Rightarrow> string" where
  "cookieHeader loginRes =
     (case cookies loginRes ''ci_sessions'' of
        None \<Rightarrow> fallback_cookie
      | Some cs \<Rightarrow>
          if length cs > 0 then ''ci_sessions='' @ cookie_value (cs ! 0)
          else fallback_cookie)"

definition success_message :: string where
  "success_message = ''Berhasil akses grouping_route''"

definition failure_message :: "int \<Rightarrow> string" where
  "failure_message st = ''Gagal akses grouping_route. Status: '' @ number_to_string st"

definition default_fn :: "'w server \<Rightarrow> 'w vu \<Rightarrow> 'w vu" where
  "default_fn srv s0 =
     (let (loginRes, s1) = http_post srv login_url credentials s0;
          headers = [(''Cookie'', cookieHeader loginRes)];
          (res, s2) = http_get srv grouping_route_url headers s1;
          s3 = (if status res = 200 then console_log success_message s2
                else console_log (body_to_string (body res))
                       (console_log (failure_message (status res)) s2))
      in sleep 1 s3)"

text \<open>The tool runs the function once per iteration, one after the other in a VU.\<close>

fun iterations :: "nat \<Rightarrow> 'w server \<Rightarrow> 'w vu \<Rightarrow> 'w vu" where
  "iterations 0 srv s = s"
| "iterations (Suc n) srv s = iterations n srv (default_fn srv s)"

text \<open>Observations on a trace: the events one iteration appends, and their kinds.\<close>

definition iteration_events :: "'w server \<Rightarrow> 'w vu \<Rightarrow> event list" where
  "iteration_events srv s = drop (length (trace s)) (trace (default_fn srv s))"

fun is_post :: "event \<Rightarrow> bool" where
  "is_post (Request (POST u p)) = True"
| "is_post e = False"

fun is_get :: "event \<Rightarrow> bool" where
  "is_get (Request (GET u h)) = True"
| "is_get e = False"

fun is_request :: "event \<Rightarrow> bool" where
  "is_request (Request r) = True"
| "is_request e = False"

fun is_log :: "event \<Rightarrow> bool" where
  "is_log (ConsoleLog m) = True"
| "is_log e = False"

text \<open>The values of the \<open>Cookie\<close> header of the GETs sent to \<open>/grouping_route\<close>.\<close>

fun cookie_headers_of :: "event \<Rightarrow> string list" where
  "cookie_headers_of (Request (GET u hs)) =
     (if u = grouping_route_url then map snd (filter (\<lambda>kv. fst kv = ''Cookie'') hs) else [])"
| "cookie_headers_of e = []"

definition cookie_headers_sent :: "event list \<Rightarrow> string list" where
  "cookie_headers_sent evs = concat (map cookie_headers_of evs)"

subsection \<open>test.js\<close>

definition test_url :: string where
  "test_url = ''https://test.k6.io/''"

definition test_default_fn :: "'w server \<Rightarrow> 'w vu \<Rightarrow> 'w vu" where
  "test_default_fn srv s0 = (let (res, s1) = http_get srv test_url [] s0 in sleep 1 s1)"

subsection \<open>handleSummary.js\<close>

text \<open>
  \<open>String.prototype.replace\<close> with a string pattern, as ECMAScript defines it: the
  position of the first occurrence is looked up; if there is none the string is returned
  as it is, otherwise the text before the occurrence, the replacement and the text
  after the occurrence are concatenated. A \<open>$\<close> in the replacement would start a
  substitution pattern; the replacement used below has none.
\<close>

fun StringIndexOf :: "string \<Rightarrow> string \<Rightarrow> nat option" where
  "StringIndexOf [] pat = (if pat = [] then Some 0 else None)"
| "StringIndexOf (c # cs) pat =
     (if prefix pat (c # cs) then Some 0 else map_option Suc (StringIndexOf cs pat))"

definition js_replace :: "string \<Rightarrow> string \<Rightarrow> string \<Rightarrow> string" where
  "js_replace str pat rep =
     (case StringIndexOf str pat of
        None \<Rightarrow> str
      | Some pos \<Rightarrow> take pos str @ rep @ drop (pos + length pat) str)"

definition body_tag :: string where
  "body_tag = ''<body>''"

definition nl :: string where
  "nl = [CHR 0x0A]"

text \<open>The template literal passed as the replacement, line by line.\<close>

definition body_replacement :: string where
  \<open>body_replacement =
     ''<body>'' @ nl @
     ''      <div style="display:flex; align-items:center; margin-bottom:20px;">'' @ nl @
     ''        <img src="./logo/ttnt.png" alt="Logo" style="width:100px; margin-right:10px;">'' @ nl @
     ''        <span style="font-size:1.5em; font-weight:bold;">PT. Toyota Tsusho Nusa Transport</span>'' @ nl @
     ''      </div>'' @ nl @
     ''  ''\<close>

text \<open>What the replacement adds behind the tag, and the two parts the report shows.\<close>

definition injected_markup :: string where
  "injected_markup = drop (length body_tag) body_replacement"

definition logo_img :: string where
  \<open>logo_img = ''<img src="./logo/ttnt.png" alt="Logo" style="width:100px; margin-right:10px;">''\<close>

definition title_text :: string where
  "title_text = ''PT. Toyota Tsusho Nusa Transport''"

text \<open>
  The libraries the function calls are not part of the repository: the report
  template (\<open>htmlReport\<close>), \<open>JSON.stringify\<close> and \<open>textSummary\<close> are parameters,
  each a function of the data it is given.
\<close>

record text_opts =
  indent :: string
  enableColors :: bool

record 'd summary_libs =
  htmlReport :: "'d \<Rightarrow> string"
  JSON_stringify :: "'d \<Rightarrow> string"
  textSummary :: "'d \<Rightarrow> text_opts \<Rightarrow> string"

text \<open>The returned object, as the list of its keys and values in the order written.\<close>

definition handleSummary :: "'d summary_libs \<Rightarrow> 'd \<Rightarrow> (string \<times> string) list" where
  "handleSummary libs data =
     (let report = htmlReport libs data;
          report = js_replace report body_tag body_replacement
      in [(''summary.html'', report),
          (''summary.json'', JSON_stringify libs data),
          (''stdout'', textSummary libs data \<lparr>indent = '' '', enableColors = True\<rparr>)])"

subsection \<open>Concrete servers and reports, for running the scripts\<close>

definition session_cookie :: cookie where
  "session_cookie = \<lparr>cookie_name = ''ci_sessions'', cookie_value = ''abc123''\<rparr>"

definition login_granted :: response where
  "login_granted =
     \<lparr>status = 200, body = Some ''welcome'', cookies = [''ci_sessions'' \<mapsto> [session_cookie]]\<rparr>"

definition login_refused :: response where
  "login_refused = \<lparr>status = 401, body = Some ''denied'', cookies = Map.empty\<rparr>"

definition page_ok :: response where
  "page_ok = \<lparr>status = 200, body = Some ''routes'', cookies = Map.empty\<rparr>"

definition page_forbidden :: response where
  "page_forbidden = \<lparr>status = 403, body = Some ''forbidden'', cookies = Map.empty\<rparr>"

text \<open>
  A server that grants the login and serves the page to the session it granted, and one
  that refuses everything. The state counts the requests received.
\<close>

definition tms_server :: "nat server" where
  "tms_server n req =
     (case req of
        POST u p \<Rightarrow> (if u = login_url \<and> p = credentials then login_granted else login_refused, Suc n)
      | GET u hs \<Rightarrow>
          (if map_of hs ''Cookie'' = Some ''ci_sessions=abc123'' then page_ok else page_forbidden,
           Suc n))"

definition locked_server :: "nat server" where
  "locked_server n req =
     (case req of POST u p \<Rightarrow> (login_refused, Suc n) | GET u hs \<Rightarrow> (page_forbidden, Suc n))"

definition fresh_vu :: "nat vu" where
  "fresh_vu = \<lparr>world = 0, trace = []\<rparr>"

definition sample_libs :: "nat summary_libs" where
  "sample_libs =
     \<lparr>htmlReport = (\<lambda>d. ''<html><body><p>ok</p><body></html>''),
      JSON_stringify = (\<lambda>d. ''{}''),
      textSummary = (\<lambda>d opts. indent opts @ ''checks'')\<rparr>"

definition bare_libs :: "nat summary_libs" where
  "bare_libs = sample_libs\<lparr>htmlReport := (\<lambda>d. ''<p>no document</p>'')\<rparr>"

section \<open>Properties of mastergroupingroute.js\<close>

text \<open>
  One iteration, for any server: the trace grows by the login POST, the GET carrying the
  header computed from the login response, the console output chosen by the status of
  the GET response, and the sleep.
\<close>

lemma default_fn_trace:
  assumes "srv (world s) (POST login_url credentials) = (loginRes, w1)"
    and "srv w1 (GET grouping_route_url [(''Cookie'', cookieHeader loginRes)]) = (res, w2)"
  shows "trace (default_fn srv s) =
           trace s @
           [Request (POST login_url credentials),
            Request (GET grouping_route_url [(''Cookie'', cookieHeader loginRes)])] @
           (if status res = 200 then [ConsoleLog success_message]
            else [ConsoleLog (failure_message (status res)),
                  ConsoleLog (body_to_string (body res))]) @
           [Sleep 1]"
    and "world (default_fn srv s) = w2"
  using assms
  by (simp_all add: default_fn_def http_post_def http_get_def console_log_def sleep_def Let_def)

lemma iteration_events_eq:
  assumes "srv (world s) (POST login_url credentials) = (loginRes, w1)"
    and "srv w1 (GET grouping_route_url [(''Cookie'', cookieHeader loginRes)]) = (res, w2)"
  shows "iteration_events srv s =
           [Request (POST login_url credentials),
            Request (GET grouping_route_url [(''Cookie'', cookieHeader loginRes)])] @
           (if status res = 200 then [ConsoleLog success_message]
            else [ConsoleLog (failure_message (status res)),
                  ConsoleLog (body_to_string (body res))]) @
           [Sleep 1]"
  unfolding iteration_events_def default_fn_trace(1)[OF assms] by simp

lemma trace_default_fn_append:
  "trace (default_fn srv s) = trace s @ iteration_events srv s"
proof -
  obtain loginRes w1 where a: "srv (world s) (POST login_url credentials) = (loginRes, w1)"
    by (cases "srv (world s) (POST login_url credentials)")
  obtain res w2
    where b: "srv w1 (GET grouping_route_url [(''Cookie'', cookieHeader loginRes)]) = (res, w2)"
    by (cases "srv w1 (GET grouping_route_url [(''Cookie'', cookieHeader loginRes)])")
  show ?thesis
    unfolding iteration_events_def default_fn_trace(1)[OF a b] by simp
qed

lemma cookieHeader_present:
  "cookies loginRes ''ci_sessions'' = Some (c # cs) \<Longrightarrow>
     cookieHeader loginRes = ''ci_sessions='' @ cookie_value c"
  by (simp add: cookieHeader_def)

lemma cookieHeader_absent:
  "cookies loginRes ''ci_sessions'' = None \<or> cookies loginRes ''ci_sessions'' = Some [] \<Longrightarrow>
     cookieHeader loginRes = fallback_cookie"
  by (auto simp add: cookieHeader_def)

lemma cookie_headers_sent_iteration:
  assumes "srv (world s) (POST login_url credentials) = (loginRes, w1)"
  shows "cookie_headers_sent (iteration_events srv s) = [cookieHeader loginRes]"
proof -
  obtain res w2
    where b: "srv w1 (GET grouping_route_url [(''Cookie'', cookieHeader loginRes)]) = (res, w2)"
    by (cases "srv w1 (GET grouping_route_url [(''Cookie'', cookieHeader loginRes)])")
  show ?thesis
    unfolding iteration_events_eq[OF assms b] by (simp add: cookie_headers_sent_def)
qed

text \<open>
  C1. The Cookie header of the protected GET falls back to the hardcoded value: when the
  login response's \<open>cookies['ci_sessions']\<close> is present and not empty, the one Cookie
  header sent to \<open>/grouping_route\<close> in the iteration is \<open>ci_sessions=\<close> followed by
  the value of the first cookie; when it is absent or empty, the header is the hardcoded
  fallback value.
\<close>

theorem default_fn_cookie_fallback:
  assumes "srv (world s) (POST login_url credentials) = (loginRes, w1)"
  shows "(cookies loginRes ''ci_sessions'' = Some (c # cs) \<longrightarrow>
            cookie_headers_sent (iteration_events srv s) = [''ci_sessions='' @ cookie_value c]) \<and>
         (cookies loginRes ''ci_sessions'' = None \<or> cookies loginRes ''ci_sessions'' = Some [] \<longrightarrow>
            cookie_headers_sent (iteration_events srv s) = [fallback_cookie])"
  using cookie_headers_sent_iteration[of srv s loginRes w1, OF assms] cookieHeader_present cookieHeader_absent
  by metis

lemma tms_login: "tms_server (world fresh_vu) (POST login_url credentials) = (login_granted, 1)"
  by (simp add: tms_server_def fresh_vu_def)

lemma locked_login: "locked_server (world fresh_vu) (POST login_url credentials) = (login_refused, 1)"
  by (simp add: locked_server_def fresh_vu_def)

theorem default_fn_cookie_fallback_witness:
  "tms_server (world fresh_vu) (POST login_url credentials) = (login_granted, 1) \<and>
   cookies login_granted ''ci_sessions'' = Some [session_cookie] \<and>
   cookie_headers_sent (iteration_events tms_server fresh_vu) = [''ci_sessions=abc123''] \<and>
   locked_server (world fresh_vu) (POST login_url credentials) = (login_refused, 1) \<and>
   cookies login_refused ''ci_sessions'' = None \<and>
   cookie_headers_sent (iteration_events locked_server fresh_vu) =
     [''s67pgo29kq2ue8o2rg90onsf8lsa06ud'']"
  using default_fn_cookie_fallback[of tms_server fresh_vu login_granted 1 session_cookie "[]"]
    default_fn_cookie_fallback[of locked_server fresh_vu login_refused 1 session_cookie "[]"]
    tms_login locked_login
  by (simp add: login_granted_def login_refused_def session_cookie_def fallback_cookie_def)


lemma tms_page:
  "tms_server 1 (GET grouping_route_url [(''Cookie'', cookieHeader login_granted)]) = (page_ok, 2)"
  by (simp add: tms_server_def cookieHeader_def login_granted_def session_cookie_def)

lemma locked_page:
  "locked_server 1 (GET grouping_route_url [(''Cookie'', cookieHeader login_refused)]) =
     (page_forbidden, 2)"
  by (simp add: locked_server_def)

lemma iteration_requests:
  "filter is_request (iteration_events srv s) =
     [Request (POST login_url credentials),
      Request (GET grouping_route_url
        [(''Cookie'', cookieHeader (fst (srv (world s) (POST login_url credentials))))])]"
proof -
  obtain loginRes w1 where a: "srv (world s) (POST login_url credentials) = (loginRes, w1)"
    by (cases "srv (world s) (POST login_url credentials)")
  obtain res w2
    where b: "srv w1 (GET grouping_route_url [(''Cookie'', cookieHeader loginRes)]) = (res, w2)"
    by (cases "srv w1 (GET grouping_route_url [(''Cookie'', cookieHeader loginRes)])")
  show ?thesis
    unfolding iteration_events_eq[of srv s loginRes w1 res w2, OF a b] a by simp
qed

lemma iteration_posts:
  "filter is_post (iteration_events srv s) = [Request (POST login_url credentials)]"
proof -
  have "filter is_post (filter is_request (iteration_events srv s)) =
          [Request (POST login_url credentials)]"
    unfolding iteration_requests by simp
  moreover have "(is_request e \<and> is_post e) = is_post e" for e
    by (cases e rule: is_post.cases) simp_all
  ultimately show ?thesis by simp
qed

lemma iteration_gets:
  "filter is_get (iteration_events srv s) =
     [Request (GET grouping_route_url
        [(''Cookie'', cookieHeader (fst (srv (world s) (POST login_url credentials))))])]"
proof -
  have "filter is_get (filter is_request (iteration_events srv s)) =
     [Request (GET grouping_route_url
        [(''Cookie'', cookieHeader (fst (srv (world s) (POST login_url credentials))))])]"
    unfolding iteration_requests by simp
  moreover have "(is_request e \<and> is_get e) = is_get e" for e
    by (cases e rule: is_get.cases) simp_all
  ultimately show ?thesis by simp
qed

lemma iterations_count:
  assumes "\<And>s. length (filter P (iteration_events srv s)) = k"
  shows "length (filter P (trace (iterations n srv s))) = length (filter P (trace s)) + n * k"
proof (induction n arbitrary: s)
  case 0
  show ?case by simp
next
  case (Suc n)
  have "length (filter P (trace (default_fn srv s))) = length (filter P (trace s)) + k"
    unfolding trace_default_fn_append using assms by simp
  with Suc show ?case by simp
qed

text \<open>
  C2, as the claim has it, asks that the GET of every iteration carry the session cookie
  captured from the login response. On a server that refuses the login the response
  carries no \<open>ci_sessions\<close> cookie, and the GET goes out all the same, with the
  hardcoded string as its Cookie header.
\<close>

theorem default_fn_linear_flow_counterexample:
  "locked_server (world fresh_vu) (POST login_url credentials) = (login_refused, 1) \<and>
   cookies login_refused ''ci_sessions'' = None \<and>
   filter is_request (iteration_events locked_server fresh_vu) =
     [Request (POST login_url credentials),
      Request (GET grouping_route_url [(''Cookie'', ''s67pgo29kq2ue8o2rg90onsf8lsa06ud'')])]"
  using locked_login
  by (simp add: iteration_requests cookieHeader_def login_refused_def fallback_cookie_def)

text \<open>
  C2, amended. Every iteration is the same linear sequence, whatever the server answers:
  the login POST comes first; the GET to \<open>/grouping_route\<close> comes second, and its Cookie
  header is \<open>ci_sessions=\<close> followed by the value of the first \<open>ci_sessions\<close> cookie of
  the response to that POST when there is one, and the hardcoded string
  \<open>s67pgo29kq2ue8o2rg90onsf8lsa06ud\<close> when there is none; after the GET come only
  console output and the final sleep. No further request follows, and the GET is
  answered in the server state the POST left behind: the body is sequential.
\<close>

theorem default_fn_linear_flow:
  assumes "srv (world s) (POST login_url credentials) = (loginRes, w1)"
  shows "\<exists>hdr logs.
           iteration_events srv s =
             Request (POST login_url credentials) #
             Request (GET grouping_route_url [(''Cookie'', hdr)]) #
             logs @ [Sleep 1] \<and>
           list_all is_log logs \<and>
           world (default_fn srv s) = snd (srv w1 (GET grouping_route_url [(''Cookie'', hdr)])) \<and>
           (cookies loginRes ''ci_sessions'' = Some (c # cs) \<longrightarrow>
              hdr = ''ci_sessions='' @ cookie_value c) \<and>
           (cookies loginRes ''ci_sessions'' = None \<or> cookies loginRes ''ci_sessions'' = Some [] \<longrightarrow>
              hdr = ''s67pgo29kq2ue8o2rg90onsf8lsa06ud'')"
proof -
  obtain res w2
    where get: "srv w1 (GET grouping_route_url [(''Cookie'', cookieHeader loginRes)]) = (res, w2)"
    by (cases "srv w1 (GET grouping_route_url [(''Cookie'', cookieHeader loginRes)])")
  let ?logs = "if status res = 200 then [ConsoleLog success_message]
               else [ConsoleLog (failure_message (status res)),
                     ConsoleLog (body_to_string (body res))]"
  have ev: "iteration_events srv s =
              Request (POST login_url credentials) #
              Request (GET grouping_route_url [(''Cookie'', cookieHeader loginRes)]) #
              ?logs @ [Sleep 1]"
    unfolding iteration_events_eq[of srv s loginRes w1 res w2, OF assms get] by simp
  have logs: "list_all is_log ?logs"
    by simp
  have w: "world (default_fn srv s) =
             snd (srv w1 (GET grouping_route_url [(''Cookie'', cookieHeader loginRes)]))"
    unfolding default_fn_trace(2)[of srv s loginRes w1 res w2, OF assms get] get by simp
  have present: "cookies loginRes ''ci_sessions'' = Some (c # cs) \<longrightarrow>
      cookieHeader loginRes = ''ci_sessions='' @ cookie_value c"
    using cookieHeader_present[of loginRes c cs] by simp
  have absent: "cookies loginRes ''ci_sessions'' = None \<or> cookies loginRes ''ci_sessions'' = Some [] \<longrightarrow>
      cookieHeader loginRes = ''s67pgo29kq2ue8o2rg90onsf8lsa06ud''"
    using cookieHeader_absent[of loginRes] by (simp add: fallback_cookie_def)
  from ev logs w present absent show ?thesis
    by blast
qed

theorem default_fn_linear_flow_witness:
  "tms_server (world fresh_vu) (POST login_url credentials) = (login_granted, 1) \<and>
   cookies login_granted ''ci_sessions'' = Some [session_cookie] \<and>
   (\<exists>logs. iteration_events tms_server fresh_vu =
      Request (POST login_url credentials) #
      Request (GET grouping_route_url [(''Cookie'', ''ci_sessions=abc123'')]) #
      logs @ [Sleep 1] \<and> list_all is_log logs) \<and>
   locked_server (world fresh_vu) (POST login_url credentials) = (login_refused, 1) \<and>
   cookies login_refused ''ci_sessions'' = None \<and>
   (\<exists>logs. iteration_events locked_server fresh_vu =
      Request (POST login_url credentials) #
      Request (GET grouping_route_url [(''Cookie'', ''s67pgo29kq2ue8o2rg90onsf8lsa06ud'')]) #
      logs @ [Sleep 1] \<and> list_all is_log logs)"
proof -
  have a: "cookies login_granted ''ci_sessions'' = Some [session_cookie]"
    "cookie_value session_cookie = ''abc123''"
    "cookies login_refused ''ci_sessions'' = None"
    by (simp_all add: login_granted_def login_refused_def session_cookie_def)
  from default_fn_linear_flow[of tms_server fresh_vu login_granted 1 session_cookie "[]", OF tms_login] a
  have 1: "\<exists>logs. iteration_events tms_server fresh_vu =
      Request (POST login_url credentials) #
      Request (GET grouping_route_url [(''Cookie'', ''ci_sessions=abc123'')]) #
      logs @ [Sleep 1] \<and> list_all is_log logs"
    by auto
  from default_fn_linear_flow[of locked_server fresh_vu login_refused 1 session_cookie "[]", OF locked_login] a
  have 2: "\<exists>logs. iteration_events locked_server fresh_vu =
      Request (POST login_url credentials) #
      Request (GET grouping_route_url [(''Cookie'', ''s67pgo29kq2ue8o2rg90onsf8lsa06ud'')]) #
      logs @ [Sleep 1] \<and> list_all is_log logs"
    by auto
  from 1 2 a tms_login locked_login show ?thesis
    by blast
qed

text \<open>
  The rendering of a number is its decimal numeral: read back, it gives the number.
\<close>

lemma digit_value_digit_char: "d < 10 \<Longrightarrow> digit_value (digit_char d) = Some d"
proof -
  assume "d < 10"
  then have "d = 0 \<or> d = 1 \<or> d = 2 \<or> d = 3 \<or> d = 4 \<or> d = 5 \<or> d = 6 \<or> d = 7 \<or> d = 8 \<or> d = 9"
    by arith
  then show ?thesis
    by (elim disjE) (simp_all add: digit_value_def digit_char_def)
qed

lemma read_digits_snoc:
  "read_digits acc (cs @ [c]) =
     (case read_digits acc cs of
        None \<Rightarrow> None
      | Some v \<Rightarrow> (case digit_value c of None \<Rightarrow> None | Some d \<Rightarrow> Some (10 * v + d)))"
  by (induction cs arbitrary: acc) (simp_all split: option.splits)

lemma read_digits_digits: "read_digits 0 (digits n) = Some n"
proof (induction n rule: digits.induct)
  case (1 n)
  show ?case
  proof (cases "n < 10")
    case True
    then show ?thesis
      by (subst digits.simps) (simp add: digit_value_digit_char)
  next
    case False
    have "n mod 10 < 10" by simp
    with False "1.IH" show ?thesis
      by (subst digits.simps) (simp add: read_digits_snoc digit_value_digit_char)
  qed
qed

lemma digits_not_Nil: "digits n \<noteq> []"
  by (subst digits.simps) simp

lemma digit_char_not_minus: "d < 10 \<Longrightarrow> digit_char d \<noteq> CHR ''-''"
proof -
  assume "d < 10"
  then have "d = 0 \<or> d = 1 \<or> d = 2 \<or> d = 3 \<or> d = 4 \<or> d = 5 \<or> d = 6 \<or> d = 7 \<or> d = 8 \<or> d = 9"
    by arith
  then show ?thesis
    by (elim disjE) (simp_all add: digit_char_def)
qed

lemma hd_digits_not_minus: "hd (digits n) \<noteq> CHR ''-''"
proof (induction n rule: digits.induct)
  case (1 n)
  show ?case
  proof (cases "n < 10")
    case True
    then show ?thesis
      by (subst digits.simps) (simp add: digit_char_not_minus)
  next
    case False
    with "1.IH" show ?thesis
      by (subst digits.simps) (simp add: digits_not_Nil)
  qed
qed

lemma read_number_number_to_string: "read_number (number_to_string i) = Some i"
proof (cases "i < 0")
  case True
  then show ?thesis
    by (simp add: number_to_string_def read_number_def digits_not_Nil read_digits_digits)
next
  case False
  obtain c cs where d: "digits (nat i) = c # cs"
    using digits_not_Nil[of "nat i"] by (cases "digits (nat i)") auto
  have "c \<noteq> CHR ''-''"
    using hd_digits_not_minus[of "nat i"] d by simp
  moreover have "read_digits 0 (c # cs) = Some (nat i)"
    using read_digits_digits[of "nat i"] d by simp
  ultimately show ?thesis
    using False d by (simp add: number_to_string_def read_number_def del: read_digits.simps)
qed

text \<open>
  C5. The only reaction to a response is the branch on the status of the GET. With status
  200 the events of the iteration are the POST, the GET, the success message and the
  sleep of one second. With any other status they are the POST, the GET, the failure
  message ending in the decimal numeral of the status code, the response body (\<open>null\<close>
  when there is none), and the same sleep of one second. The first console line is the
  success message exactly when the status is 200. Nothing else happens in either case: no
  request is sent again, no longer pause follows a failure, and the function returns with
  the server state the GET left.
\<close>

theorem default_fn_status_branch:
  assumes "srv (world s) (POST login_url credentials) = (loginRes, w1)"
    and "srv w1 (GET grouping_route_url [(''Cookie'', cookieHeader loginRes)]) = (res, w2)"
  shows "iteration_events srv s =
           [Request (POST login_url credentials),
            Request (GET grouping_route_url [(''Cookie'', cookieHeader loginRes)])] @
           (if status res = 200 then [ConsoleLog ''Berhasil akses grouping_route'']
            else [ConsoleLog (''Gagal akses grouping_route. Status: '' @ number_to_string (status res)),
                  ConsoleLog (case body res of None \<Rightarrow> ''null'' | Some t \<Rightarrow> t)]) @
           [Sleep 1] \<and>
         read_number (number_to_string (status res)) = Some (status res) \<and>
         (hd (filter is_log (iteration_events srv s)) = ConsoleLog ''Berhasil akses grouping_route''
            \<longleftrightarrow> status res = 200) \<and>
         world (default_fn srv s) = w2"
  unfolding iteration_events_eq[of srv s loginRes w1 res w2, OF assms]
    default_fn_trace(2)[of srv s loginRes w1 res w2, OF assms]
  by (simp add: success_message_def failure_message_def body_to_string_def
      read_number_number_to_string)

theorem default_fn_status_branch_witness:
  "tms_server (world fresh_vu) (POST login_url credentials) = (login_granted, 1) \<and>
   tms_server 1 (GET grouping_route_url [(''Cookie'', cookieHeader login_granted)]) = (page_ok, 2) \<and>
   iteration_events tms_server fresh_vu =
     [Request (POST login_url credentials),
      Request (GET grouping_route_url [(''Cookie'', ''ci_sessions=abc123'')]),
      ConsoleLog ''Berhasil akses grouping_route'',
      Sleep 1] \<and>
   locked_server (world fresh_vu) (POST login_url credentials) = (login_refused, 1) \<and>
   locked_server 1 (GET grouping_route_url [(''Cookie'', cookieHeader login_refused)]) =
     (page_forbidden, 2) \<and>
   iteration_events locked_server fresh_vu =
     [Request (POST login_url credentials),
      Request (GET grouping_route_url [(''Cookie'', ''s67pgo29kq2ue8o2rg90onsf8lsa06ud'')]),
      ConsoleLog ''Gagal akses grouping_route. Status: 403'',
      ConsoleLog ''forbidden'',
      Sleep 1] \<and>
   read_number ''403'' = Some 403"
proof -
  have n: "number_to_string 403 = ''403''"
    by (simp add: number_to_string_def digits.simps digit_char_def)
  have c: "cookieHeader login_granted = ''ci_sessions=abc123''"
    "cookieHeader login_refused = ''s67pgo29kq2ue8o2rg90onsf8lsa06ud''"
    by (simp_all add: cookieHeader_def login_granted_def login_refused_def session_cookie_def
        fallback_cookie_def)
  show ?thesis
    using default_fn_status_branch[of tms_server fresh_vu login_granted 1 page_ok 2]
      default_fn_status_branch[of locked_server fresh_vu login_refused 1 page_forbidden 2]
      tms_login tms_page locked_login locked_page n c
    by (simp add: page_ok_def page_forbidden_def)
qed


text \<open>
  C6. For any server and any state, one iteration issues exactly one POST, the login, and
  exactly one GET, two requests in all; \<open>n\<close> iterations add exactly \<open>n\<close> POSTs and
  \<open>n\<close> GETs to the trace. No response makes the script send a request again.
\<close>

theorem default_fn_no_retry:
  "filter is_post (iteration_events srv s) = [Request (POST login_url credentials)] \<and>
   length (filter is_get (iteration_events srv s)) = 1 \<and>
   length (filter is_request (iteration_events srv s)) = 2 \<and>
   length (filter is_post (trace (iterations n srv s))) = length (filter is_post (trace s)) + n \<and>
   length (filter is_get (trace (iterations n srv s))) = length (filter is_get (trace s)) + n"
  using iterations_count[of is_post srv 1 n s] iterations_count[of is_get srv 1 n s]
  by (simp add: iteration_posts iteration_gets iteration_requests)

theorem default_fn_no_retry_witness:
  "length (filter is_post (trace (iterations 2 tms_server fresh_vu))) = 2 \<and>
   length (filter is_get (trace (iterations 2 locked_server fresh_vu))) = 2"
  using default_fn_no_retry[of tms_server fresh_vu 2] default_fn_no_retry[of locked_server fresh_vu 2]
  by (simp add: fresh_vu_def)

text \<open>
  C8. The two branches give headers of different shapes: with a \<open>ci_sessions\<close> cookie in
  the login response the header sent is \<open>ci_sessions=<value>\<close> and starts with the
  cookie name; in the fallback case the header sent is the bare string
  \<open>s67pgo29kq2ue8o2rg90onsf8lsa06ud\<close>, which neither starts with \<open>ci_sessions=\<close> nor
  contains an \<open>=\<close> at all.
\<close>

theorem cookie_header_shapes:
  assumes "srv (world s) (POST login_url credentials) = (loginRes, w1)"
  shows "(cookies loginRes ''ci_sessions'' = Some (c # cs) \<longrightarrow>
            (\<exists>h. cookie_headers_sent (iteration_events srv s) = [h] \<and>
                 h = ''ci_sessions='' @ cookie_value c \<and> prefix ''ci_sessions='' h)) \<and>
         (cookies loginRes ''ci_sessions'' = None \<or> cookies loginRes ''ci_sessions'' = Some [] \<longrightarrow>
            (\<exists>h. cookie_headers_sent (iteration_events srv s) = [h] \<and>
                 h = ''s67pgo29kq2ue8o2rg90onsf8lsa06ud'' \<and>
                 \<not> prefix ''ci_sessions='' h \<and> CHR ''='' \<notin> set h))"
proof -
  have sent: "cookie_headers_sent (iteration_events srv s) = [cookieHeader loginRes]"
    by (rule cookie_headers_sent_iteration[of srv s loginRes w1, OF assms])
  have bare: "\<not> prefix ''ci_sessions='' ''s67pgo29kq2ue8o2rg90onsf8lsa06ud''"
    "CHR ''='' \<notin> set ''s67pgo29kq2ue8o2rg90onsf8lsa06ud''"
    by simp_all
  show ?thesis
    unfolding sent using bare cookieHeader_present[of loginRes c cs] cookieHeader_absent[of loginRes]
    by (auto simp add: fallback_cookie_def)
qed

theorem cookie_header_shapes_witness:
  "tms_server (world fresh_vu) (POST login_url credentials) = (login_granted, 1) \<and>
   cookies login_granted ''ci_sessions'' = Some [session_cookie] \<and>
   prefix ''ci_sessions='' (hd (cookie_headers_sent (iteration_events tms_server fresh_vu))) \<and>
   locked_server (world fresh_vu) (POST login_url credentials) = (login_refused, 1) \<and>
   cookies login_refused ''ci_sessions'' = None \<and>
   \<not> prefix ''ci_sessions='' (hd (cookie_headers_sent (iteration_events locked_server fresh_vu)))"
  using cookie_header_shapes[of tms_server fresh_vu login_granted 1 session_cookie "[]"]
    cookie_header_shapes[of locked_server fresh_vu login_refused 1 session_cookie "[]"]
    tms_login locked_login
  by (auto simp add: login_granted_def login_refused_def)


section \<open>Properties of handleSummary.js\<close>

text \<open>
  The search finds nothing exactly when the pattern does not occur; when it finds a
  position, the string splits there into the text before, the pattern and the text
  after, and the pattern does not occur any earlier.
\<close>

lemma StringIndexOf_None_iff: "StringIndexOf str pat = None \<longleftrightarrow> \<not> sublist pat str"
  by (induction str) (auto simp add: sublist_Cons_right)


lemma StringIndexOf_first:
  assumes "pat \<noteq> []" and "\<not> sublist pat (pre @ butlast pat)"
  shows "StringIndexOf (pre @ pat @ post) pat = Some (length pre)"
  using assms(2)
proof (induction pre)
  case Nil
  then show ?case using assms(1) by (cases pat) simp_all
next
  case (Cons a pre)
  have no: "\<not> prefix pat ((a # pre) @ butlast pat)" "\<not> sublist pat (pre @ butlast pat)"
    using Cons.prems by (simp_all add: sublist_Cons_right)
  have len: "length pat \<le> length ((a # pre) @ butlast pat)"
    by simp
  have eq: "a # pre @ pat @ post = ((a # pre) @ butlast pat) @ (last pat # post)"
    using assms(1) by simp
  have "\<not> prefix pat (a # pre @ pat @ post)"
    unfolding eq
  proof
    assume "prefix pat (((a # pre) @ butlast pat) @ (last pat # post))"
    moreover have "prefix ((a # pre) @ butlast pat) (((a # pre) @ butlast pat) @ (last pat # post))"
      by (rule prefixI) (rule refl)
    ultimately have "prefix pat ((a # pre) @ butlast pat)"
      using len by (rule prefix_length_prefix)
    with no(1) show False by simp
  qed
  with Cons.IH[OF no(2)] show ?case by simp
qed

lemma js_replace_absent: "\<not> sublist pat str \<Longrightarrow> js_replace str pat rep = str"
  by (simp add: js_replace_def StringIndexOf_None_iff[symmetric])

lemma js_replace_first:
  assumes "pat \<noteq> []" and "\<not> sublist pat (pre @ butlast pat)"
  shows "js_replace (pre @ pat @ post) pat rep = pre @ rep @ post"
  by (simp add: js_replace_def StringIndexOf_first[OF assms])


lemma body_replacement_split: "body_replacement = body_tag @ injected_markup"
  by (simp add: injected_markup_def body_replacement_def body_tag_def)

lemma body_replacement_no_dollar: "CHR ''$'' \<notin> set body_replacement"
  by (simp add: body_replacement_def nl_def)

lemma injected_markup_parts:
  "sublist logo_img injected_markup" "sublist title_text injected_markup"
  by code_simp+

lemma handleSummary_html:
  "map_of (handleSummary libs data) ''summary.html'' =
     Some (js_replace (htmlReport libs data) body_tag body_replacement)"
  by (simp add: handleSummary_def)


lemma sample_report_split:
  "htmlReport sample_libs 0 = ''<html>'' @ ''<body>'' @ ''<p>ok</p><body></html>''"
  "\<not> sublist ''<body>'' (''<html>'' @ ''<body'')"
  "sublist ''<body>'' (htmlReport sample_libs 0)"
  by (simp_all add: sample_libs_def sublist_code)

lemma bare_report_no_tag: "\<not> sublist ''<body>'' (htmlReport bare_libs 0)"
  by (simp add: bare_libs_def sample_libs_def sublist_code)





text \<open>
  C4. When the rendered HTML is \<open>pre\<close>, the first \<open><body>\<close> tag, and \<open>post\<close>, the HTML
  artifact is \<open>pre\<close>, the tag, the injected markup, and \<open>post\<close>: the markup, which
  holds the logo image and the title, stands immediately behind the tag, and every
  character of the rendered HTML is kept, in its order.
\<close>

theorem handleSummary_html_insertion:
  assumes "htmlReport libs data = pre @ ''<body>'' @ post"
    and "\<not> sublist ''<body>'' (pre @ ''<body'')"
  shows "map_of (handleSummary libs data) ''summary.html'' =
           Some (pre @ ''<body>'' @ injected_markup @ post) \<and>
         sublist logo_img injected_markup \<and> sublist title_text injected_markup"
  using js_replace_first[of body_tag pre post body_replacement] assms injected_markup_parts
  by (simp add: handleSummary_def body_replacement_split body_tag_def)

theorem handleSummary_html_insertion_witness:
  "htmlReport sample_libs 0 = ''<html>'' @ ''<body>'' @ ''<p>ok</p><body></html>'' \<and>
   \<not> sublist ''<body>'' (''<html>'' @ ''<body'') \<and>
   map_of (handleSummary sample_libs 0) ''summary.html'' =
     Some (''<html>'' @ ''<body>'' @ injected_markup @ ''<p>ok</p><body></html>'')"
  using handleSummary_html_insertion[of sample_libs 0 "''<html>''" "''<p>ok</p><body></html>''"]
    sample_report_split(1,2)
  by simp

text \<open>
  C9. For every data object the \<open>summary.json\<close> artifact is \<open>JSON.stringify\<close> of the
  data the function was given, and the \<open>stdout\<close> artifact is the text summary of that
  data; neither depends on the rendered HTML or on the replacement made in it: with any
  other report renderer the two artifacts are the same.
\<close>

theorem handleSummary_json_frame:
  "map_of (handleSummary libs data) ''summary.json'' = Some (JSON_stringify libs data) \<and>
   map_of (handleSummary libs data) ''stdout'' =
     Some (textSummary libs data \<lparr>indent = '' '', enableColors = True\<rparr>) \<and>
   map_of (handleSummary (libs\<lparr>htmlReport := h\<rparr>) data) ''summary.json'' =
     map_of (handleSummary libs data) ''summary.json'' \<and>
   map_of (handleSummary (libs\<lparr>htmlReport := h\<rparr>) data) ''stdout'' =
     map_of (handleSummary libs data) ''stdout''"
  by (simp add: handleSummary_def)

text \<open>
  C10. The replacement touches the first occurrence of \<open><body>\<close> only. If the rendered
  HTML does not contain \<open><body>\<close>, the HTML artifact is the rendered HTML as it is,
  without logo or title. If it does, the text before the first occurrence and the whole
  text after it, later occurrences included, are kept, and that one occurrence is
  replaced by the template literal.
\<close>

theorem handleSummary_replace_first_only:
  "(\<not> sublist ''<body>'' (htmlReport libs data) \<longrightarrow>
      map_of (handleSummary libs data) ''summary.html'' = Some (htmlReport libs data)) \<and>
   (htmlReport libs data = pre @ ''<body>'' @ post \<and> \<not> sublist ''<body>'' (pre @ ''<body'') \<longrightarrow>
      map_of (handleSummary libs data) ''summary.html'' = Some (pre @ body_replacement @ post))"
  using js_replace_first[of body_tag pre post body_replacement]
    js_replace_absent[of body_tag "htmlReport libs data" body_replacement]
  by (simp add: handleSummary_def body_tag_def)

theorem handleSummary_replace_first_only_witness:
  "\<not> sublist ''<body>'' (htmlReport bare_libs 0) \<and>
   map_of (handleSummary bare_libs 0) ''summary.html'' = Some ''<p>no document</p>'' \<and>
   htmlReport sample_libs 0 = ''<html>'' @ ''<body>'' @ ''<p>ok</p><body></html>'' \<and>
   \<not> sublist ''<body>'' (''<html>'' @ ''<body'') \<and>
   map_of (handleSummary sample_libs 0) ''summary.html'' =
     Some (''<html>'' @ body_replacement @ ''<p>ok</p><body></html>'')"
  using handleSummary_replace_first_only[of bare_libs 0]
    handleSummary_replace_first_only[of sample_libs 0 "''<html>''" "''<p>ok</p><body></html>''"]
    bare_report_no_tag sample_report_split(1,2)
  by (simp add: bare_libs_def sample_libs_def)


section \<open>test.js\<close>

text \<open>
  The iteration of \<open>test.js\<close> sends its one GET and sleeps. The response is dropped: no
  field of it is read, so nothing in the script depends on the status the host answers.
\<close>

lemma test_default_fn_trace:
  "trace (test_default_fn srv s) = trace s @ [Request (GET test_url []), Sleep 1]"
  by (cases "srv (world s) (GET test_url [])")
    (simp add: test_default_fn_def http_get_def sleep_def)

end
